theory Spec2Isabelle
  imports Main "HOL-Library.Sublist"
begin

section \<open>JavaScript values\<close>

text \<open>
  Candid Canvas is written in JavaScript. The fragment of the language that the
  scheduler (lib/animator.js) and the scene container (lib/scene.js) rely on is
  embedded here: dynamically typed values, truthiness, the \<open>||\<close> operator, the
  relational comparison of a number with an arbitrary value, and thrown errors.

  Consumer supplied functions (scene elements, start and completion handlers)
  are opaque. They are identified by a number, and every invocation is recorded
  in a trace together with the argument it received. The embedding assumes that
  such a function neither throws nor calls back into the scheduler.
\<close>

type_synonym cb = nat
type_synonym ref = nat
type_synonym addr = nat

text \<open>
  \<open>JFn n\<close> is a function object of the library itself, declared with \<open>n\<close> formal
  parameters (its \<open>length\<close> property). \<open>JArr xs\<close> is an array of consumer functions.
\<close>

datatype jsval = JUndefined | JBool bool | JNum int | JFn nat | JArr "cb list"

datatype error = TypeError | ReferenceError

fun truthy :: "jsval \<Rightarrow> bool" where
  "truthy JUndefined = False"
| "truthy (JBool b) = b"
| "truthy (JNum n) = (n \<noteq> 0)"
| "truthy (JFn n) = True"
| "truthy (JArr xs) = True"

definition js_or :: "jsval \<Rightarrow> jsval \<Rightarrow> jsval" where
  "js_or a b = (if truthy a then a else b)"

text \<open>
  ToNumber, with \<open>None\<close> for NaN. A function object converts to its source text,
  which is not a numeric literal. An array converts to the comma separated
  conversion of its members, so only the empty array of functions is numeric.
\<close>

fun to_number :: "jsval \<Rightarrow> int option" where
  "to_number JUndefined = None"
| "to_number (JBool b) = Some (if b then 1 else 0)"
| "to_number (JNum n) = Some n"
| "to_number (JFn n) = None"
| "to_number (JArr xs) = (if xs = [] then Some 0 else None)"

text \<open>\<open>x < v\<close> for a number \<open>x\<close>: false as soon as \<open>v\<close> converts to NaN.\<close>

definition js_lt :: "int \<Rightarrow> jsval \<Rightarrow> bool" where
  "js_lt x v = (case to_number v of None \<Rightarrow> False | Some y \<Rightarrow> x < y)"

text \<open>
  The number of rounds of \<open>for (var i = 0, len = v.length; i < len; i++)\<close>:
  reading a property of \<open>undefined\<close> throws, a number or a boolean has no
  \<open>length\<close> (and \<open>0 < undefined\<close> is false), a function has as many as it
  declares parameters.
\<close>

fun js_length :: "jsval \<Rightarrow> error + nat" where
  "js_length JUndefined = Inl TypeError"
| "js_length (JBool b) = Inr 0"
| "js_length (JNum n) = Inr 0"
| "js_length (JFn n) = Inr n"
| "js_length (JArr xs) = Inr (length xs)"

text \<open>\<open>v[i]\<close>, as a function that can be called; \<open>None\<close> when it is \<open>undefined\<close>.\<close>

fun js_index :: "jsval \<Rightarrow> nat \<Rightarrow> cb option" where
  "js_index (JArr xs) i = (if i < length xs then Some (xs ! i) else None)"
| "js_index v i = None"

type_synonym options = "string \<rightharpoonup> jsval"

definition get_prop :: "options \<Rightarrow> string \<Rightarrow> jsval" where
  "get_prop opts k = (case opts k of None \<Rightarrow> JUndefined | Some v \<Rightarrow> v)"

text \<open>\<open>options || {}\<close> for an optional parameter.\<close>

definition or_empty :: "options option \<Rightarrow> options" where
  "or_empty options = (case options of None \<Rightarrow> Map.empty | Some opts \<Rightarrow> opts)"

section \<open>Scenes (lib/scene.js)\<close>

text \<open>
  A scene keeps its elements, its elapsed time and its duration in closure
  variables behind accessor functions, and its handlers in \<open>_events\<close>. The
  elapsed time is a number throughout: the scheduler only ever stores numbers.
\<close>

record scene =
  events :: "string \<rightharpoonup> cb list"
  elements :: "cb list"
  timeElapsed :: int
  duration :: jsval

text \<open>
  The accessors set the variable when called with at least one argument and
  return its value either way.
\<close>

definition timeElapsed_call :: "int list \<Rightarrow> scene \<Rightarrow> int \<times> scene" where
  "timeElapsed_call args s =
     (let s' = (if length args > 0 then s\<lparr>timeElapsed := hd args\<rparr> else s)
      in (timeElapsed s', s'))"

definition duration_call :: "jsval list \<Rightarrow> scene \<Rightarrow> jsval \<times> scene" where
  "duration_call args s =
     (let s' = (if length args > 0 then s\<lparr>duration := hd args\<rparr> else s)
      in (duration s', s'))"

definition elements_call :: "scene \<Rightarrow> jsval" where
  "elements_call s = JArr (elements s)"

text \<open>
  What the properties themselves hold, when they are read without being
  called: the accessor functions. \<open>scene.elements\<close> is declared without
  parameters, \<open>scene.duration\<close> with one.
\<close>

definition elements_property :: "scene \<Rightarrow> jsval" where
  "elements_property s = JFn 0"

definition duration_property :: "scene \<Rightarrow> jsval" where
  "duration_property s = JFn 1"

definition Scene :: "options option \<Rightarrow> scene" where
  "Scene options =
     (let opts = or_empty options;
          this = \<lparr>events = Map.empty, elements = [], timeElapsed = 0, duration = JNum 0\<rparr>
      in snd (duration_call [get_prop opts ''duration''] this))"

definition createScene :: "options option \<Rightarrow> scene" where
  "createScene options = Scene options"

definition addElement :: "cb \<Rightarrow> scene \<Rightarrow> scene" where
  "addElement f s = s\<lparr>elements := elements s @ [f]\<rparr>"

definition addElements :: "cb list \<Rightarrow> scene \<Rightarrow> scene" where
  "addElements fs s = fold addElement fs s"

definition clearElements :: "scene \<Rightarrow> scene" where
  "clearElements s = s\<lparr>elements := []\<rparr>"

definition addEvent :: "string \<Rightarrow> cb \<Rightarrow> scene \<Rightarrow> scene" where
  "addEvent name f s =
     s\<lparr>events := (events s)(name \<mapsto> (case events s name of None \<Rightarrow> [] | Some hs \<Rightarrow> hs) @ [f])\<rparr>"

section \<open>The scheduler's state (lib/animator.js)\<close>

datatype arg = AnimatorArg | SceneArg ref

datatype event = Call cb arg

text \<open>
  Scene objects and arrays are shared by reference, so both live in a store.
  \<open>scenes\<close> is the address of the array behind \<open>anim.scenes()\<close>,
  \<open>remainingScenes\<close> the address held by \<open>anim._remainingScenes\<close> (if any).
  For \<open>currentlyPlaying\<close> and \<open>looping\<close>, \<open>JUndefined\<close> stands for a property
  that is absent or holds \<open>undefined\<close>: the code only ever tests their
  truthiness. \<open>timers\<close> are the intervals the host currently has armed.
\<close>

record world =
  heap :: "ref \<Rightarrow> scene"
  arrays :: "addr \<Rightarrow> ref list"
  nextAddr :: addr
  scenes :: addr
  currentScene :: "ref option"
  currentlyPlaying :: jsval
  looping :: jsval
  playTimer :: "nat option"
  remainingScenes :: "addr option"
  timers :: "nat set"
  nextTimer :: nat
  trace :: "event list"

type_synonym result = "(error \<times> world) + world"

definition DEFAULT_FRAME_DURATION :: int where
  "DEFAULT_FRAME_DURATION = 25"

text \<open>
  The constructor: \<open>_initScenes\<close> allocates the empty scene array,
  \<open>_initCurrentScene\<close> leaves the current scene undefined, and none of the
  playback properties exists yet. The parameter is the store of the scene
  objects the consumer has created with \<open>createScene\<close>; the canvas context
  plays no part in scheduling and is left out.
\<close>

definition Animator :: "(ref \<Rightarrow> scene) \<Rightarrow> world" where
  "Animator h =
     \<lparr>heap = h, arrays = (\<lambda>a. []), nextAddr = 1, scenes = 0, currentScene = None,
      currentlyPlaying = JUndefined, looping = JUndefined, playTimer = None,
      remainingScenes = None, timers = {}, nextTimer = 0, trace = []\<rparr>"

definition addScene :: "ref \<Rightarrow> world \<Rightarrow> world" where
  "addScene r w = w\<lparr>arrays := (arrays w)(scenes w := arrays w (scenes w) @ [r])\<rparr>"

definition addScenes :: "ref list \<Rightarrow> world \<Rightarrow> world" where
  "addScenes rs w = fold addScene rs w"

text \<open>\<open>clearScenes\<close> assigns a new empty array to the closure variable.\<close>

definition clearScenes :: "world \<Rightarrow> world" where
  "clearScenes w =
     w\<lparr>arrays := (arrays w)(nextAddr w := []), scenes := nextAddr w,
       nextAddr := Suc (nextAddr w)\<rparr>"

text \<open>\<open>a.concat()\<close> allocates a copy; \<open>a.shift()\<close> removes the first member in place.\<close>

definition array_concat :: "addr \<Rightarrow> world \<Rightarrow> addr \<times> world" where
  "array_concat a w =
     (nextAddr w, w\<lparr>arrays := (arrays w)(nextAddr w := arrays w a), nextAddr := Suc (nextAddr w)\<rparr>)"

definition array_shift :: "addr \<Rightarrow> world \<Rightarrow> ref option \<times> world" where
  "array_shift a w =
     (case arrays w a of
        [] \<Rightarrow> (None, w)
      | x # xs \<Rightarrow> (Some x, w\<lparr>arrays := (arrays w)(a := xs)\<rparr>))"

definition set_timeElapsed :: "ref \<Rightarrow> int \<Rightarrow> world \<Rightarrow> world" where
  "set_timeElapsed r t w = w\<lparr>heap := (heap w)(r := snd (timeElapsed_call [t] (heap w r)))\<rparr>"

definition get_timeElapsed :: "ref \<Rightarrow> world \<Rightarrow> int" where
  "get_timeElapsed r w = fst (timeElapsed_call [] (heap w r))"

definition setInterval :: "world \<Rightarrow> nat \<times> world" where
  "setInterval w =
     (nextTimer w, w\<lparr>timers := insert (nextTimer w) (timers w), nextTimer := Suc (nextTimer w)\<rparr>)"

definition clearInterval :: "nat option \<Rightarrow> world \<Rightarrow> world" where
  "clearInterval h w = (case h of None \<Rightarrow> w | Some t \<Rightarrow> w\<lparr>timers := timers w - {t}\<rparr>)"

section \<open>Firing handlers and elements\<close>

primrec call_all :: "cb list \<Rightarrow> arg \<Rightarrow> world \<Rightarrow> world" where
  "call_all [] x w = w"
| "call_all (f # fs) x w = call_all fs x (w\<lparr>trace := trace w @ [Call f x]\<rparr>)"

definition callEvents :: "ref \<Rightarrow> string \<Rightarrow> world \<Rightarrow> world" where
  "callEvents r name w =
     (case events (heap w r) name of
        None \<Rightarrow> w
      | Some hs \<Rightarrow> call_all hs (SceneArg r) w)"

definition callOrAddEvents :: "ref \<Rightarrow> string \<Rightarrow> cb list \<Rightarrow> world \<Rightarrow> world" where
  "callOrAddEvents r name args w =
     (if length args > 0
      then w\<lparr>heap := (heap w)(r := addEvent name (hd args) (heap w r))\<rparr>
      else callEvents r name w)"

definition onstart :: "ref \<Rightarrow> cb list \<Rightarrow> world \<Rightarrow> world" where
  "onstart r args w = callOrAddEvents r ''onstart'' args w"

definition oncomplete :: "ref \<Rightarrow> cb list \<Rightarrow> world \<Rightarrow> world" where
  "oncomplete r args w = callOrAddEvents r ''oncomplete'' args w"

text \<open>The body of the loop of \<open>_runCurrentScene\<close>, over the indices it visits.\<close>

primrec call_indexed :: "jsval \<Rightarrow> nat list \<Rightarrow> world \<Rightarrow> result" where
  "call_indexed v [] w = Inr w"
| "call_indexed v (i # js) w =
     (case js_index v i of
        None \<Rightarrow> Inl (TypeError, w)
      | Some f \<Rightarrow> call_indexed v js (w\<lparr>trace := trace w @ [Call f AnimatorArg]\<rparr>))"

text \<open>
  \<open>_runCurrentScene\<close> reads \<open>scene.elements\<close> without calling it, and loops
  over that value.
\<close>

definition runCurrentScene :: "world \<Rightarrow> result" where
  "runCurrentScene w =
     (case currentScene w of
        None \<Rightarrow> Inl (TypeError, w)
      | Some r \<Rightarrow>
          (let w1 = (if get_timeElapsed r w < 1 then onstart r [] w else w);
               els = elements_property (heap w1 r)
           in case js_length els of
                Inl e \<Rightarrow> Inl (e, w1)
              | Inr len \<Rightarrow> call_indexed els [0..<len] w1))"

section \<open>Reset\<close>

text \<open>
  \<open>clearCurrentScene\<close> starts with \<open>current.timeElapsed(0)\<close>. No scope around
  it binds \<open>current\<close>, so evaluating the identifier throws a ReferenceError and
  the assignment \<open>currentScene = null\<close> after it is never reached.
\<close>

definition clearCurrentScene :: "world \<Rightarrow> result" where
  "clearCurrentScene w = Inl (ReferenceError, w)"

definition resetAnimator :: "world \<Rightarrow> result" where
  "resetAnimator w =
     (let w1 = clearInterval (playTimer w) w;
          w2 = w1\<lparr>currentlyPlaying := JUndefined\<rparr>;
          w3 = w2\<lparr>looping := JUndefined\<rparr>;
          w4 = w3\<lparr>playTimer := None\<rparr>;
          w5 = w4\<lparr>remainingScenes := None\<rparr>
      in clearCurrentScene w5)"

definition reset :: "world \<Rightarrow> result" where
  "reset w = resetAnimator w"

section \<open>Play, loop and pause\<close>

definition initForPlay :: "options \<Rightarrow> world \<Rightarrow> result" where
  "initForPlay opts w =
     (let w1 = w\<lparr>currentlyPlaying := JBool True\<rparr>;
          w2 = w1\<lparr>looping := js_or (looping w1) (get_prop opts ''loop'')\<rparr>;
          w3 = (case remainingScenes w2 of
                  Some a \<Rightarrow> w2
                | None \<Rightarrow> (let (a, w') = array_concat (scenes w2) w2
                           in w'\<lparr>remainingScenes := Some a\<rparr>))
      in case currentScene w3 of
           Some r \<Rightarrow>
             Inr (set_timeElapsed r
                    (if get_timeElapsed r w3 \<noteq> 0 then get_timeElapsed r w3 else 0) w3)
         | None \<Rightarrow>
             (case remainingScenes w3 of
                None \<Rightarrow> Inl (TypeError, w3)
              | Some a \<Rightarrow>
                  (let (x, w') = array_shift a w3;
                       w4 = w'\<lparr>currentScene := x\<rparr>
                   in case x of
                        None \<Rightarrow> Inl (TypeError, w4)
                      | Some r \<Rightarrow>
                          Inr (set_timeElapsed r
                                 (if get_timeElapsed r w4 \<noteq> 0 then get_timeElapsed r w4 else 0)
                                 w4))))"

definition startFrameTimer :: "world \<Rightarrow> world" where
  "startFrameTimer w = (let (h, w') = setInterval w in w'\<lparr>playTimer := Some h\<rparr>)"

definition play :: "options option \<Rightarrow> world \<Rightarrow> result" where
  "play options w =
     (if truthy (currentlyPlaying w) then Inr w
      else case initForPlay (or_empty options) w of
             Inl x \<Rightarrow> Inl x
           | Inr w1 \<Rightarrow> Inr (startFrameTimer w1))"

definition loop :: "options option \<Rightarrow> world \<Rightarrow> result" where
  "loop options w = play (Some ((or_empty options)(''loop'' \<mapsto> JBool True))) w"

definition pause :: "world \<Rightarrow> world" where
  "pause w = clearInterval (playTimer w) (w\<lparr>currentlyPlaying := JBool False\<rparr>)"

section \<open>The periodic tick\<close>

text \<open>
  The function handed to \<open>setInterval\<close> by \<open>_startFrameTimer\<close>. Its comparison
  reads \<open>anim.currentScene().duration\<close> without calling it.
\<close>

definition advance :: "world \<Rightarrow> result" where
  "advance w =
     (case currentScene w of
        None \<Rightarrow> Inl (TypeError, w)
      | Some r \<Rightarrow>
          (let timeElapsedForCurrentScene = get_timeElapsed r w
           in if js_lt timeElapsedForCurrentScene (duration_property (heap w r))
              then (case runCurrentScene w of
                      Inl x \<Rightarrow> Inl x
                    | Inr w1 \<Rightarrow>
                        Inr (set_timeElapsed r
                               (timeElapsedForCurrentScene + DEFAULT_FRAME_DURATION) w1))
              else (let w1 = oncomplete r [] w;
                        w2 = set_timeElapsed r 0 w1
                    in case remainingScenes w2 of
                         None \<Rightarrow> Inl (TypeError, w2)
                       | Some a \<Rightarrow>
                           (let (x, w3) = array_shift a w2
                            in Inr (w3\<lparr>currentScene := x\<rparr>)))))"

definition reload :: "world \<Rightarrow> result" where
  "reload w =
     (let (a, w1) = array_concat (scenes w) w;
          w2 = w1\<lparr>remainingScenes := Some a\<rparr>;
          (x, w3) = array_shift a w2;
          w4 = w3\<lparr>currentScene := x\<rparr>
      in case x of
           None \<Rightarrow> Inl (TypeError, w4)
         | Some r \<Rightarrow> Inr (set_timeElapsed r 0 w4))"

definition frameTick :: "world \<Rightarrow> result" where
  "frameTick w =
     (case currentScene w of
        None \<Rightarrow>
          (if truthy (looping w)
           then (case reload w of Inl x \<Rightarrow> Inl x | Inr w1 \<Rightarrow> advance w1)
           else resetAnimator w)
      | Some r \<Rightarrow> advance w)"

section \<open>Runs of the scheduler\<close>

text \<open>
  The host calls the tick only while an interval is armed. An error thrown by
  an operation reaches the host's event loop; the scheduler object lives on in
  the state it had when the error was thrown.
\<close>

datatype op = Play "options option" | Loop "options option" | Pause | Reset | Tick

fun apply_op :: "op \<Rightarrow> world \<Rightarrow> result" where
  "apply_op (Play options) w = play options w"
| "apply_op (Loop options) w = loop options w"
| "apply_op Pause w = Inr (pause w)"
| "apply_op Reset w = reset w"
| "apply_op Tick w = (if timers w = {} then Inr w else frameTick w)"

definition state_of :: "result \<Rightarrow> world" where
  "state_of res = (case res of Inl (e, w) \<Rightarrow> w | Inr w \<Rightarrow> w)"

definition step :: "world \<Rightarrow> op \<Rightarrow> world" where
  "step w x = state_of (apply_op x w)"

definition run :: "op list \<Rightarrow> world \<Rightarrow> world" where
  "run ops w = foldl step w ops"

section \<open>Example programs\<close>

text \<open>
  A scheduler with one scene of duration 100 that has two elements (1 and 2),
  a start handler (3) and a completion handler (4).
\<close>

definition demo1 :: world where
  "demo1 =
     (let scene = addElements [1, 2] (createScene (Some [''duration'' \<mapsto> JNum 100]));
          w1 = addScene 0 (Animator (\<lambda>r. scene));
          w2 = onstart 0 [3] w1
      in oncomplete 0 [4] w2)"

text \<open>
  A scheduler with scene A (reference 0, duration 50, element 1, start handler
  10, completion handler 11) followed by scene B (reference 1, duration 30,
  element 2, start handler 20, completion handler 21).
\<close>

definition demo2 :: world where
  "demo2 =
     (let sceneA = addElement 1 (createScene (Some [''duration'' \<mapsto> JNum 50]));
          sceneB = addElement 2 (createScene (Some [''duration'' \<mapsto> JNum 30]));
          w1 = addScenes [0, 1] (Animator (\<lambda>r. if r = 0 then sceneA else sceneB));
          w2 = onstart 0 [10] w1;
          w3 = oncomplete 0 [11] w2;
          w4 = onstart 1 [20] w3
      in oncomplete 1 [21] w4)"

section \<open>Invariants of the scheduler\<close>

text \<open>
  At most the interval recorded in \<open>_playTimer\<close> is armed, and none is armed
  unless the playing flag is set.
\<close>

definition timer_inv :: "world \<Rightarrow> bool" where
  "timer_inv w =
     ((case playTimer w of None \<Rightarrow> timers w = {} | Some h \<Rightarrow> timers w \<subseteq> {h}) \<and>
      (truthy (currentlyPlaying w) \<or> timers w = {}))"

text \<open>
  The registered array holds \<open>rs\<close>; the working queue is another array and
  holds a suffix of \<open>rs\<close>; the current scene is one of \<open>rs\<close>.
\<close>

definition queue_inv :: "ref list \<Rightarrow> world \<Rightarrow> bool" where
  "queue_inv rs w =
     (scenes w < nextAddr w \<and> arrays w (scenes w) = rs \<and>
      (case remainingScenes w of
         None \<Rightarrow> True
       | Some a \<Rightarrow> a \<noteq> scenes w \<and> a < nextAddr w \<and> suffix (arrays w a) rs) \<and>
      (case currentScene w of None \<Rightarrow> True | Some r \<Rightarrow> r \<in> set rs))"

section \<open>Basic facts\<close>

lemmas scene_defs = timeElapsed_call_def duration_call_def set_timeElapsed_def get_timeElapsed_def

lemmas array_defs = array_concat_def array_shift_def

lemmas timer_defs = setInterval_def clearInterval_def startFrameTimer_def

lemma call_all_eq: "call_all fs x w = w\<lparr>trace := trace w @ map (\<lambda>f. Call f x) fs\<rparr>"
  by (induction fs arbitrary: w) simp_all

lemma js_lt_accessor: "js_lt e (duration_property s) = False"
  by (simp add: js_lt_def duration_property_def)

lemma fire_events_eq:
  "callOrAddEvents r name [] w =
     w\<lparr>trace := trace w @ map (\<lambda>f. Call f (SceneArg r))
                            (case events (heap w r) name of None \<Rightarrow> [] | Some hs \<Rightarrow> hs)\<rparr>"
  by (simp add: callOrAddEvents_def callEvents_def call_all_eq split: option.splits)

lemma runCurrentScene_eq:
  "runCurrentScene w =
     (case currentScene w of
        None \<Rightarrow> Inl (TypeError, w)
      | Some r \<Rightarrow> Inr (if get_timeElapsed r w < 1 then onstart r [] w else w))"
  by (simp add: runCurrentScene_def elements_property_def Let_def split: option.splits)

text \<open>What a tick does to a scheduler that has a current scene.\<close>

lemma advance_eq:
  "advance w =
     (case currentScene w of
        None \<Rightarrow> Inl (TypeError, w)
      | Some r \<Rightarrow>
          (case remainingScenes w of
             None \<Rightarrow> Inl (TypeError, set_timeElapsed r 0 (oncomplete r [] w))
           | Some a \<Rightarrow>
               (case arrays w a of
                  [] \<Rightarrow> Inr ((set_timeElapsed r 0 (oncomplete r [] w))\<lparr>currentScene := None\<rparr>)
                | x # xs \<Rightarrow>
                    Inr ((set_timeElapsed r 0 (oncomplete r [] w))
                           \<lparr>arrays := (arrays w)(a := xs), currentScene := Some x\<rparr>))))"
  by (simp add: advance_def js_lt_accessor Let_def array_shift_def set_timeElapsed_def
      oncomplete_def fire_events_eq split: option.splits list.splits)

lemma resetAnimator_eq:
  "resetAnimator w =
     Inl (ReferenceError,
          (clearInterval (playTimer w) w)
            \<lparr>currentlyPlaying := JUndefined, looping := JUndefined, playTimer := None,
             remainingScenes := None\<rparr>)"
  by (simp add: resetAnimator_def clearCurrentScene_def Let_def)

lemma addScenes_arrays:
  "arrays (addScenes rs w) = (arrays w)(scenes w := arrays w (scenes w) @ rs) \<and>
   scenes (addScenes rs w) = scenes w \<and> nextAddr (addScenes rs w) = nextAddr w \<and>
   remainingScenes (addScenes rs w) = remainingScenes w \<and>
   currentScene (addScenes rs w) = currentScene w \<and> timers (addScenes rs w) = timers w \<and>
   playTimer (addScenes rs w) = playTimer w \<and>
   currentlyPlaying (addScenes rs w) = currentlyPlaying w"
  unfolding addScenes_def
  by (induction rs arbitrary: w) (simp_all add: addScene_def fun_eq_iff)

lemma run_snoc: "run (xs @ [x]) w = step (run xs w) x"
  by (simp add: run_def)

section \<open>Preservation of the invariants\<close>

lemma timer_inv_play: "timer_inv w \<Longrightarrow> timer_inv (state_of (play options w))"
  by (auto simp: timer_inv_def play_def initForPlay_def timer_defs array_defs scene_defs
      state_of_def Let_def split: option.splits list.splits)

lemma timer_inv_pause: "timer_inv w \<Longrightarrow> timer_inv (pause w)"
  by (auto simp: timer_inv_def pause_def clearInterval_def split: option.splits)

lemma timer_inv_reset: "timer_inv w \<Longrightarrow> timer_inv (state_of (resetAnimator w))"
  by (auto simp: timer_inv_def resetAnimator_eq clearInterval_def state_of_def
      split: option.splits)

lemma timer_inv_reload:
  "timer_inv w \<Longrightarrow> timer_inv (state_of (reload w)) \<and>
     (case reload w of Inl x \<Rightarrow> True | Inr w1 \<Rightarrow> timer_inv w1)"
  by (auto simp: timer_inv_def reload_def array_defs scene_defs state_of_def Let_def
      split: option.splits list.splits)

lemma timer_inv_advance: "timer_inv w \<Longrightarrow> timer_inv (state_of (advance w))"
  by (auto simp: timer_inv_def advance_eq scene_defs fire_events_eq oncomplete_def state_of_def
      split: option.splits list.splits)

lemma timer_inv_frameTick: "timer_inv w \<Longrightarrow> timer_inv (state_of (frameTick w))"
proof -
  assume inv: "timer_inv w"
  show ?thesis
  proof (cases "currentScene w")
    case (Some r)
    with inv show ?thesis by (simp add: frameTick_def timer_inv_advance)
  next
    case None
    show ?thesis
    proof (cases "truthy (looping w)")
      case False
      with None inv show ?thesis by (simp add: frameTick_def timer_inv_reset)
    next
      case True
      show ?thesis
      proof (cases "reload w")
        case (Inl x)
        with timer_inv_reload [OF inv] None True show ?thesis
          by (simp add: frameTick_def state_of_def)
      next
        case (Inr w1)
        with timer_inv_reload [OF inv] have "timer_inv w1" by simp
        then have "timer_inv (state_of (advance w1))" by (rule timer_inv_advance)
        with None True Inr show ?thesis by (simp add: frameTick_def)
      qed
    qed
  qed
qed

lemma timer_inv_step: "timer_inv w \<Longrightarrow> timer_inv (step w x)"
proof (cases x)
  case (Play options)
  assume "timer_inv w"
  with Play show ?thesis by (simp add: step_def timer_inv_play)
next
  case (Loop options)
  assume "timer_inv w"
  with Loop show ?thesis by (simp add: step_def loop_def timer_inv_play)
next
  case Pause
  assume "timer_inv w"
  with Pause show ?thesis by (simp add: step_def state_of_def timer_inv_pause)
next
  case Reset
  assume "timer_inv w"
  with Reset show ?thesis by (simp add: step_def reset_def timer_inv_reset)
next
  case Tick
  assume "timer_inv w"
  with Tick show ?thesis by (simp add: step_def timer_inv_frameTick) (simp add: state_of_def)
qed

lemma timer_inv_run: "timer_inv w \<Longrightarrow> timer_inv (run ops w)"
  by (induction ops rule: rev_induct) (simp_all add: run_def timer_inv_step)

lemma timer_inv_fresh: "timer_inv (addScenes rs (Animator h))"
  by (simp add: timer_inv_def addScenes_arrays Animator_def)


lemma array_shift_eq:
  "array_shift a w =
     (if arrays w a = [] then (None, w)
      else (Some (hd (arrays w a)), w\<lparr>arrays := (arrays w)(a := tl (arrays w a))\<rparr>))"
  by (simp add: array_shift_def split: list.splits)

lemma suffix_tl_inv: "suffix xs rs \<Longrightarrow> suffix (tl xs) rs"
  using suffix_order.trans [OF suffix_tl] by blast

lemma suffix_hd_inv: "suffix xs rs \<Longrightarrow> xs \<noteq> [] \<Longrightarrow> hd xs \<in> set rs"
  using set_mono_suffix [of xs rs] hd_in_set [of xs] by blast

lemmas queue_facts = array_shift_eq array_concat_def suffix_tl_inv suffix_hd_inv

lemma queue_inv_play: "queue_inv rs w \<Longrightarrow> queue_inv rs (state_of (play options w))"
  by (auto simp: queue_inv_def play_def initForPlay_def timer_defs queue_facts scene_defs
      state_of_def Let_def split: option.splits)

lemma queue_inv_pause: "queue_inv rs w \<Longrightarrow> queue_inv rs (pause w)"
  by (auto simp: queue_inv_def pause_def clearInterval_def split: option.splits)

lemma queue_inv_reset: "queue_inv rs w \<Longrightarrow> queue_inv rs (state_of (resetAnimator w))"
  by (auto simp: queue_inv_def resetAnimator_eq clearInterval_def state_of_def
      split: option.splits)

lemma queue_inv_reload:
  "queue_inv rs w \<Longrightarrow> queue_inv rs (state_of (reload w))"
  by (auto simp: queue_inv_def reload_def queue_facts scene_defs state_of_def Let_def
      split: option.splits)

lemma queue_inv_advance: "queue_inv rs w \<Longrightarrow> queue_inv rs (state_of (advance w))"
  by (auto simp: queue_inv_def advance_def js_lt_accessor queue_facts scene_defs fire_events_eq
      oncomplete_def state_of_def Let_def split: option.splits)

lemma queue_inv_frameTick: "queue_inv rs w \<Longrightarrow> queue_inv rs (state_of (frameTick w))"
proof -
  assume inv: "queue_inv rs w"
  show ?thesis
  proof (cases "currentScene w")
    case (Some r)
    with inv show ?thesis by (simp add: frameTick_def queue_inv_advance)
  next
    case None
    show ?thesis
    proof (cases "truthy (looping w)")
      case False
      with None inv show ?thesis by (simp add: frameTick_def queue_inv_reset)
    next
      case True
      show ?thesis
      proof (cases "reload w")
        case (Inl x)
        with queue_inv_reload [OF inv] None True show ?thesis
          by (simp add: frameTick_def)
      next
        case (Inr w1)
        with queue_inv_reload [OF inv] have "queue_inv rs w1" by (simp add: state_of_def)
        then have "queue_inv rs (state_of (advance w1))" by (rule queue_inv_advance)
        with None True Inr show ?thesis by (simp add: frameTick_def)
      qed
    qed
  qed
qed

lemma queue_inv_step: "queue_inv rs w \<Longrightarrow> queue_inv rs (step w x)"
proof (cases x)
  case (Play options)
  assume "queue_inv rs w"
  with Play show ?thesis by (simp add: step_def queue_inv_play)
next
  case (Loop options)
  assume "queue_inv rs w"
  with Loop show ?thesis by (simp add: step_def loop_def queue_inv_play)
next
  case Pause
  assume "queue_inv rs w"
  with Pause show ?thesis by (simp add: step_def state_of_def queue_inv_pause)
next
  case Reset
  assume "queue_inv rs w"
  with Reset show ?thesis by (simp add: step_def reset_def queue_inv_reset)
next
  case Tick
  assume "queue_inv rs w"
  with Tick show ?thesis by (simp add: step_def queue_inv_frameTick) (simp add: state_of_def)
qed

lemma queue_inv_run: "queue_inv rs w \<Longrightarrow> queue_inv rs (run ops w)"
  by (induction ops rule: rev_induct) (simp_all add: run_def queue_inv_step)

lemma queue_inv_fresh: "queue_inv rs (addScenes rs (Animator h))"
  by (simp add: queue_inv_def addScenes_arrays Animator_def)

text \<open>No operation assigns the closure variable behind \<open>anim.scenes()\<close>.\<close>

lemma scenes_step: "scenes (step w x) = scenes w"
  by (cases x)
     (auto simp: step_def state_of_def play_def loop_def pause_def reset_def resetAnimator_eq
        initForPlay_def frameTick_def reload_def advance_eq timer_defs array_defs scene_defs
        fire_events_eq oncomplete_def Let_def split: option.splits list.splits)

lemma scenes_run: "scenes (run ops w) = scenes w"
  by (induction ops rule: rev_induct) (simp_all add: run_def scenes_step)

text \<open>Once set, the looping flag is only ever cleared by a reset.\<close>

lemma looping_play:
  "truthy (looping w) \<Longrightarrow> looping (state_of (play options w)) = looping w"
  by (auto simp: play_def initForPlay_def timer_defs array_defs scene_defs js_or_def
      state_of_def Let_def split: option.splits list.splits)

lemma looping_frameTick:
  "truthy (looping w) \<Longrightarrow> looping (state_of (frameTick w)) = looping w"
  by (auto simp: frameTick_def reload_def advance_eq array_defs scene_defs fire_events_eq
      oncomplete_def state_of_def Let_def split: option.splits list.splits)

lemma looping_step:
  "truthy (looping w) \<Longrightarrow> x \<noteq> Reset \<Longrightarrow> looping (step w x) = looping w"
proof (cases x)
  case (Play options)
  assume "truthy (looping w)"
  with Play show ?thesis by (simp add: step_def looping_play)
next
  case (Loop options)
  assume "truthy (looping w)"
  with Loop show ?thesis by (simp add: step_def loop_def looping_play)
next
  case Pause
  then show ?thesis
    by (simp add: step_def state_of_def pause_def clearInterval_def split: option.splits)
next
  case Reset
  assume "x \<noteq> Reset"
  with Reset show ?thesis by simp
next
  case Tick
  assume "truthy (looping w)"
  with Tick show ?thesis by (simp add: step_def looping_frameTick) (simp add: state_of_def)
qed

lemma looping_run:
  "truthy (looping w) \<Longrightarrow> Reset \<notin> set ops \<Longrightarrow> looping (run ops w) = looping w"
proof (induction ops rule: rev_induct)
  case Nil
  show ?case by (simp add: run_def)
next
  case (snoc x xs)
  then have keep: "looping (run xs w) = looping w" and x: "x \<noteq> Reset" by auto
  with snoc.prems have "looping (step (run xs w) x) = looping (run xs w)"
    by (simp add: looping_step)
  with keep show ?case by (simp add: run_snoc)
qed

lemma looping_requested:
  "\<not> truthy (currentlyPlaying w) \<Longrightarrow> get_prop (or_empty options) ''loop'' = JBool True \<Longrightarrow>
     looping (state_of (play options w)) = (if truthy (looping w) then looping w else JBool True)"
  by (auto simp: play_def initForPlay_def timer_defs array_defs scene_defs js_or_def
      state_of_def Let_def split: option.splits list.splits)

section \<open>The tick on a running scene\<close>

text \<open>
  C1. The scheduler of \<open>demo1\<close> has one scene of duration 100. After \<open>play()\<close>
  the scene is current with elapsed time 0 and an interval is armed. The very
  first tick already takes the completion branch: the completion handler (4)
  fires, no frame is run (neither the start handler 3 nor the elements 1 and 2
  are called), the elapsed time is not advanced and the current scene becomes
  absent.
\<close>

theorem one_scene_completes_on_first_tick:
  "currentScene (run [Play None] demo1) = Some 0 \<and>
   get_timeElapsed 0 (run [Play None] demo1) = 0 \<and>
   fst (duration_call [] (heap (run [Play None] demo1) 0)) = JNum 100 \<and>
   timers (run [Play None] demo1) = {0} \<and>
   trace (run [Play None, Tick] demo1) = [Call 4 (SceneArg 0)] \<and>
   get_timeElapsed 0 (run [Play None, Tick] demo1) = 0 \<and>
   currentScene (run [Play None, Tick] demo1) = None"
  by code_simp

text \<open>
  C2. In \<open>demo1\<close> after \<open>play()\<close> the current scene is still running (elapsed
  time 0, duration 100) and has the elements 1 and 2. \<open>_runCurrentScene\<close> on
  that state calls the start handler only, and the tick calls the completion
  handler only: no element is invoked.
\<close>

theorem elements_not_invoked:
  "elements_call (heap (run [Play None] demo1) 0) = JArr [1, 2] \<and>
   (case runCurrentScene (run [Play None] demo1) of
      Inl x \<Rightarrow> None
    | Inr w \<Rightarrow> Some (trace w)) = Some [Call 3 (SceneArg 0)] \<and>
   (case apply_op Tick (run [Play None] demo1) of
      Inl x \<Rightarrow> None
    | Inr w \<Rightarrow> Some (trace w)) = Some [Call 4 (SceneArg 0)]"
  by code_simp

section \<open>Reset\<close>

text \<open>
  C3. In every state \<open>reset()\<close> throws a ReferenceError, and the state it
  leaves behind still has the current scene it had before, with that scene's
  elapsed time untouched.
\<close>

theorem reset_always_throws:
  "\<exists>w'. reset w = Inl (ReferenceError, w') \<and> currentScene w' = currentScene w \<and>
        heap w' = heap w \<and> timers w' = timers w - set_option (playTimer w)"
  by (auto simp: reset_def resetAnimator_eq clearInterval_def split: option.splits)

section \<open>Order of the handlers\<close>

text \<open>
  C4. The scheduler of \<open>demo2\<close> loops over scene A (handlers 10 and 11) and
  scene B (handlers 20 and 21). Over the first five ticks only completion
  handlers fire, each with its scene as argument: no start handler fires before
  the completion handler of its scene.
\<close>

theorem completion_fires_without_start:
  "trace (run [Loop None, Tick, Tick, Tick, Tick, Tick] demo2) =
     [Call 11 (SceneArg 0), Call 21 (SceneArg 1), Call 11 (SceneArg 0),
      Call 21 (SceneArg 1), Call 11 (SceneArg 0)]"
  by code_simp

section \<open>Pause and resume\<close>

text \<open>
  In every state \<open>pause()\<close> clears the playing flag, disarms the interval
  recorded in \<open>_playTimer\<close> and changes nothing else.
\<close>

lemma pause_frame:
  "pause w = w\<lparr>currentlyPlaying := JBool False, timers := timers w - set_option (playTimer w)\<rparr>"
  by (cases "playTimer w") (simp_all add: pause_def clearInterval_def)

text \<open>
  When the paused scheduler holds a current scene, a following \<open>play()\<close>
  returns normally with the same current scene, the same elapsed times (the
  whole scene store is unchanged), the same working queue with the same
  content, the same looping mode, and one interval armed again.
\<close>

lemma resume_with_current_scene:
  assumes "truthy (currentlyPlaying w)" and "currentScene w = Some r"
    and "remainingScenes w = Some a" and "playTimer w = Some h" and "timers w = {h}"
  shows "pause w = w\<lparr>currentlyPlaying := JBool False, timers := {}\<rparr> \<and>
         (\<exists>w'. play None (pause w) = Inr w' \<and>
               currentScene w' = Some r \<and>
               get_timeElapsed r w' = get_timeElapsed r w \<and>
               heap w' = heap w \<and>
               remainingScenes w' = Some a \<and>
               arrays w' = arrays w \<and>
               truthy (looping w') = truthy (looping w) \<and>
               truthy (currentlyPlaying w') \<and>
               timers w' = {nextTimer w} \<and>
               trace w' = trace w)"
  using assms
  by (auto simp: pause_def play_def initForPlay_def timer_defs scene_defs js_or_def
      or_empty_def get_prop_def Let_def)

lemma resume_with_current_scene_example:
  "\<exists>w'. play None (pause (set_timeElapsed 0 50 (run [Play None] demo1))) = Inr w' \<and>
        currentScene w' = Some 0 \<and> get_timeElapsed 0 w' = 50"
proof -
  let ?w = "set_timeElapsed 0 50 (run [Play None] demo1)"
  have h1: "truthy (currentlyPlaying ?w)" by code_simp
  have h2: "currentScene ?w = Some 0" by code_simp
  have h3: "remainingScenes ?w = Some 1" by code_simp
  have h4: "playTimer ?w = Some 0" by code_simp
  have h5: "timers ?w = {0}" by code_simp
  have e: "get_timeElapsed 0 ?w = 50" by code_simp
  from resume_with_current_scene [OF h1 h2 h3 h4 h5] e show ?thesis by auto
qed

text \<open>
  C5. A playing scheduler has no current scene between the tick that completes
  the last scene of the queue and the next tick. In \<open>demo1\<close> that is the state
  after \<open>loop()\<close> (or \<open>play()\<close>) and one tick: the playing flag is set, the
  interval is armed, the current scene is absent and the retained queue is
  empty. \<open>pause()\<close> followed by \<open>play()\<close> does not resume there:
  \<open>_initForPlay\<close> keeps the empty queue, shifts \<open>undefined\<close> off it and throws a
  TypeError on its elapsed-time accessor. The playing flag is left set and no
  interval is armed.
\<close>

theorem pause_then_play_throws_between_scenes:
  "truthy (currentlyPlaying (run [Loop None, Tick] demo1)) \<and>
   timers (run [Loop None, Tick] demo1) = {0} \<and>
   truthy (looping (run [Loop None, Tick] demo1)) \<and>
   currentScene (run [Loop None, Tick] demo1) = None \<and>
   (case play None (pause (run [Loop None, Tick] demo1)) of
      Inl (e, w) \<Rightarrow> e = TypeError \<and> timers w = {} \<and> truthy (currentlyPlaying w)
    | Inr w \<Rightarrow> False) \<and>
   truthy (currentlyPlaying (run [Play None, Tick] demo1)) \<and>
   timers (run [Play None, Tick] demo1) = {0} \<and>
   currentScene (run [Play None, Tick] demo1) = None \<and>
   (case play None (pause (run [Play None, Tick] demo1)) of
      Inl (e, w) \<Rightarrow> e = TypeError \<and> timers w = {} \<and> truthy (currentlyPlaying w)
    | Inr w \<Rightarrow> False)"
  by code_simp

section \<open>Play while playing\<close>

text \<open>
  C6. While the playing flag is set, \<open>play\<close> (and so \<open>loop\<close>) returns at once
  and leaves the whole state as it was, the armed intervals included. From a
  freshly constructed scheduler, whatever scenes were added and whatever
  operations follow, at most one interval is armed at any time.
\<close>

theorem play_while_playing_is_noop:
  "(truthy (currentlyPlaying w) \<longrightarrow> play options w = Inr w \<and> loop options w = Inr w) \<and>
   (timers (run ops (addScenes rs (Animator h))) = {} \<or>
    (\<exists>t. timers (run ops (addScenes rs (Animator h))) = {t}))"
proof -
  have "timer_inv (run ops (addScenes rs (Animator h)))"
    by (rule timer_inv_run) (rule timer_inv_fresh)
  then have "timers (run ops (addScenes rs (Animator h))) = {} \<or>
    (\<exists>t. timers (run ops (addScenes rs (Animator h))) = {t})"
    by (auto simp: timer_inv_def split: option.splits)
  then show ?thesis by (simp add: play_def loop_def)
qed

theorem play_while_playing_is_noop_witness:
  "truthy (currentlyPlaying (run [Play None] demo1)) \<and>
   play None (run [Play None] demo1) = Inr (run [Play None] demo1) \<and>
   loop None (run [Play None] demo1) = Inr (run [Play None] demo1)"
proof -
  have h: "truthy (currentlyPlaying (run [Play None] demo1))" by code_simp
  with play_while_playing_is_noop [of "run [Play None] demo1" None] show ?thesis by simp
qed

section \<open>The looping flag\<close>

text \<open>
  C7, as stated, fails: a \<open>play\<close> or \<open>loop\<close> call that requests looping
  while the scheduler is already playing is ignored, so the flag is not set by
  it. In \<open>demo1\<close>, after \<open>play()\<close>, neither \<open>loop()\<close> nor
  \<open>play({loop: true})\<close> turns looping on.
\<close>

theorem loop_request_ignored_while_playing:
  "truthy (currentlyPlaying (run [Play None] demo1)) \<and>
   \<not> truthy (looping (run [Play None, Loop None] demo1)) \<and>
   \<not> truthy (looping (run [Play None, Play (Some [''loop'' \<mapsto> JBool True])] demo1))"
  by code_simp

text \<open>
  C7, amended. When a \<open>play\<close> call that requests \<open>loop = true\<close> is made
  while the scheduler is not already playing, the looping flag is set (to
  \<open>true\<close>, unless it already held a truthy value, which it keeps) and keeps its
  value over every following sequence of play, loop and pause calls and ticks
  that contains no reset. A reset clears the flag. \<open>loop(options)\<close> is \<open>play\<close>
  with the \<open>loop\<close> option forced to \<open>true\<close>, which is such a request.
\<close>

theorem looping_sticky_until_reset:
  assumes "\<not> truthy (currentlyPlaying w)"
    and "get_prop (or_empty options) ''loop'' = JBool True"
    and "Reset \<notin> set ops"
  shows "truthy (looping (run ops (step w (Play options)))) \<and>
         looping (run ops (step w (Play options))) =
           (if truthy (looping w) then looping w else JBool True) \<and>
         looping (step (run ops (step w (Play options))) Reset) = JUndefined \<and>
         loop options' w = play (Some ((or_empty options')(''loop'' \<mapsto> JBool True))) w \<and>
         get_prop (or_empty (Some ((or_empty options')(''loop'' \<mapsto> JBool True)))) ''loop'' =
           JBool True"
proof -
  let ?w1 = "step w (Play options)"
  have set: "looping ?w1 = (if truthy (looping w) then looping w else JBool True)"
    using assms(1,2) by (simp add: step_def looping_requested)
  then have on: "truthy (looping ?w1)" by simp
  from on assms(3) have keep: "looping (run ops ?w1) = looping ?w1" by (rule looping_run)
  have off: "looping (step (run ops ?w1) Reset) = JUndefined"
    by (simp add: step_def reset_def resetAnimator_eq state_of_def)
  from set on keep off show ?thesis
    by (simp add: loop_def get_prop_def or_empty_def)
qed

theorem looping_sticky_until_reset_witness:
  "truthy (looping (run [Pause, Play None, Tick, Tick, Pause, Play (Some [''loop'' \<mapsto> JBool False]), Tick]
                     (step demo1 (Play (Some [''loop'' \<mapsto> JBool True]))))) \<and>
   looping (run [Pause, Play None, Tick, Tick, Pause, Play (Some [''loop'' \<mapsto> JBool False]), Tick]
              (step demo1 (Play (Some [''loop'' \<mapsto> JBool True])))) = JBool True"
proof -
  have h1: "\<not> truthy (currentlyPlaying demo1)" by code_simp
  have h2: "get_prop (or_empty (Some [''loop'' \<mapsto> JBool True])) ''loop'' = JBool True"
    by (simp add: get_prop_def or_empty_def)
  have h3: "Reset \<notin> set [Pause, Play None, Tick, Tick, Pause,
                          Play (Some [''loop'' \<mapsto> JBool False]), Tick]"
    by simp
  have h4: "\<not> truthy (looping demo1)" by code_simp
  from looping_sticky_until_reset [OF h1 h2 h3] h4 show ?thesis by simp
qed

section \<open>The registered scene list\<close>

text \<open>
  C8. Take a freshly constructed scheduler to which the scenes \<open>rs\<close> were
  added, and run any sequence of play, loop, pause, reset and tick operations.
  The scheduler still refers to the same scene array, and that array still
  holds \<open>rs\<close>, in order. A working queue, when there is one, is a different
  array, holding a suffix of \<open>rs\<close>: playback and loop restarts shift scenes
  off a copy. The current scene, when there is one, is one of the registered
  scene objects themselves.
\<close>

theorem scenes_never_mutated:
  "scenes (run ops (addScenes rs (Animator h))) = scenes (addScenes rs (Animator h)) \<and>
   arrays (addScenes rs (Animator h)) (scenes (addScenes rs (Animator h))) = rs \<and>
   arrays (run ops (addScenes rs (Animator h))) (scenes (run ops (addScenes rs (Animator h)))) = rs \<and>
   (case remainingScenes (run ops (addScenes rs (Animator h))) of
      None \<Rightarrow> True
    | Some a \<Rightarrow> a \<noteq> scenes (run ops (addScenes rs (Animator h))) \<and>
               suffix (arrays (run ops (addScenes rs (Animator h))) a) rs) \<and>
   (case currentScene (run ops (addScenes rs (Animator h))) of
      None \<Rightarrow> True
    | Some r \<Rightarrow> r \<in> set rs)"
proof -
  let ?w0 = "addScenes rs (Animator h)"
  have start: "queue_inv rs ?w0" by (rule queue_inv_fresh)
  then have "queue_inv rs (run ops ?w0)" by (rule queue_inv_run)
  with start show ?thesis
    by (simp add: queue_inv_def scenes_run split: option.splits)
qed

section \<open>Playing an empty scheduler\<close>

text \<open>
  C9, as stated, fails. On a fresh scheduler without scenes the first
  \<open>play()\<close> throws a TypeError, but it has set the playing flag before
  throwing; the scene list is still empty, and a second \<open>play()\<close> or
  \<open>loop()\<close> returns at once and changes nothing. And when the scene list of
  \<open>demo1\<close> is cleared while the scheduler is paused on its scene, \<open>play()\<close>
  finds the retained current scene, returns normally and arms an interval.
\<close>

theorem play_on_empty_scheduler_ignored:
  "(\<exists>w'. play None (Animator (\<lambda>r. Scene None)) = Inl (TypeError, w')) \<and>
   arrays (run [Play None] (Animator (\<lambda>r. Scene None)))
     (scenes (run [Play None] (Animator (\<lambda>r. Scene None)))) = [] \<and>
   play None (run [Play None] (Animator (\<lambda>r. Scene None))) =
     Inr (run [Play None] (Animator (\<lambda>r. Scene None))) \<and>
   loop None (run [Play None] (Animator (\<lambda>r. Scene None))) =
     Inr (run [Play None] (Animator (\<lambda>r. Scene None))) \<and>
   arrays (clearScenes (run [Play None, Pause] demo1))
     (scenes (clearScenes (run [Play None, Pause] demo1))) = [] \<and>
   (case play None (clearScenes (run [Play None, Pause] demo1)) of
      Inl x \<Rightarrow> False
    | Inr w \<Rightarrow> currentScene w = Some 0 \<and> timers w = {1})"
proof -
  let ?w = "run [Play None] (Animator (\<lambda>r. Scene None))"
  have thrown: "\<exists>w'. play None (Animator (\<lambda>r. Scene None)) = Inl (TypeError, w')"
    by (simp add: play_def initForPlay_def array_defs Animator_def Let_def)
  have empty: "arrays ?w (scenes ?w) = []" by code_simp
  have flag: "truthy (currentlyPlaying ?w)" by code_simp
  then have noop: "play None ?w = Inr ?w \<and> loop None ?w = Inr ?w"
    by (simp add: play_def loop_def)
  have cleared: "arrays (clearScenes (run [Play None, Pause] demo1))
     (scenes (clearScenes (run [Play None, Pause] demo1))) = []"
    by code_simp
  have resumed: "(case play None (clearScenes (run [Play None, Pause] demo1)) of
      Inl x \<Rightarrow> False
    | Inr w \<Rightarrow> currentScene w = Some 0 \<and> timers w = {1})"
    by code_simp
  from thrown empty noop cleared resumed show ?thesis by simp
qed

text \<open>
  C9, amended. Take a scheduler whose scene list is empty, that is not
  already playing and has nothing retained to resume: no current scene, and
  no working queue or an empty one (a fresh scheduler, for instance).
  \<open>play\<close> and \<open>loop\<close> throw a TypeError while initialising playback: the
  scene shifted off the empty queue is absent. No interval is armed.
\<close>

theorem play_on_empty_scheduler_throws:
  assumes "\<not> truthy (currentlyPlaying w)" and "currentScene w = None"
    and "arrays w (scenes w) = []"
    and "case remainingScenes w of None \<Rightarrow> True | Some a \<Rightarrow> arrays w a = []"
  shows "(\<exists>w'. play options w = Inl (TypeError, w') \<and> timers w' = timers w \<and>
               currentScene w' = None) \<and>
         (\<exists>w'. loop options w = Inl (TypeError, w') \<and> timers w' = timers w \<and>
               currentScene w' = None)"
  using assms
  by (auto simp: loop_def play_def initForPlay_def array_defs Let_def split: option.splits)

theorem play_on_empty_scheduler_throws_witness:
  "(\<exists>w'. play None (Animator (\<lambda>r. Scene None)) = Inl (TypeError, w') \<and>
         timers w' = timers (Animator (\<lambda>r. Scene None)) \<and> currentScene w' = None) \<and>
   (\<exists>w'. loop None (Animator (\<lambda>r. Scene None)) = Inl (TypeError, w') \<and>
         timers w' = timers (Animator (\<lambda>r. Scene None)) \<and> currentScene w' = None)"
  by (rule play_on_empty_scheduler_throws) (simp_all add: Animator_def)

section \<open>Scene construction\<close>

text \<open>
  C10. A scene constructed without a duration option reports \<open>undefined\<close> as
  its duration, not the 0 the accessor's variable starts with: the
  constructor always calls the setter, with whatever \<open>options.duration\<close> is.
\<close>

theorem Scene_without_duration:
  "get_prop (or_empty options) ''duration'' = JUndefined \<Longrightarrow>
     fst (duration_call [] (Scene options)) = JUndefined \<and>
     fst (duration_call [] (Scene options)) \<noteq> JNum 0"
  by (simp add: Scene_def duration_call_def)

theorem Scene_without_duration_witness:
  "fst (duration_call [] (Scene None)) = JUndefined \<and>
   fst (duration_call [] (Scene None)) \<noteq> JNum 0"
  by (rule Scene_without_duration) (simp add: get_prop_def or_empty_def)

end
